theory Spec2Isabelle
  imports Main
begin

unbundle bit_operations_syntax

section \<open>The data buffer of iobuf.py\<close>

text \<open>
  A shallow embedding of the class \<open>data_buffer\<close> of \<^verbatim>\<open>iobuf.py\<close>. Python integers are
  unbounded, so elements are \<^typ>\<open>int\<close>, and Python's \<^verbatim>\<open>&\<close>, \<^verbatim>\<open>|\<close>, \<^verbatim>\<open><<\<close>, \<^verbatim>\<open>>>\<close> are
  \<open>AND\<close>, \<open>OR\<close>, \<open>push_bit\<close>, \<open>drop_bit\<close> on \<^typ>\<open>int\<close>. The two cursors are only ever
  set to \<open>0\<close>, to \<open>len(self.buf)\<close>, or incremented, so they are \<^typ>\<open>nat\<close>. A method is a
  function from the object's state to an outcome and the state the object is left in;
  a raised exception is an \<open>Inl\<close> outcome, with the state as it was when the exception was
  raised.
\<close>

subsection \<open>State and errors\<close>

record data_buffer =
  width :: nat
  buf :: "int list"
  wr_idx :: nat
  rd_idx :: nat

text \<open>
  What the methods raise. The constructors carry the names of the specification's error
  kinds where it has one:
  \<^item> \<open>BufferUnderflow\<close>: the \<^verbatim>\<open>IndexError\<close> of \<^verbatim>\<open>self.buf[self.rd_idx]\<close> in \<^verbatim>\<open>read\<close>;
  \<^item> \<open>BufferOverrun\<close>: \<^verbatim>\<open>assert False, 'buffer write error: more than 1 off the end'\<close>;
  \<^item> \<open>UnsupportedConversion\<close>: \<^verbatim>\<open>assert False, 'TODO: unsupported conversion from 16 to 32 bits'\<close>;
  \<^item> \<open>ConversionError w\<close>: \<^verbatim>\<open>assert False, 'conversion error: width %d' % self.width\<close>;
  \<^item> \<open>BadWidth\<close>: \<^verbatim>\<open>assert False, 'bad width'\<close>;
  \<^item> \<open>EndianSwapError w\<close>: \<^verbatim>\<open>assert False, 'endian swap error: width %d' % self.width\<close>;
  \<^item> \<open>IndexError\<close>: a list index out of range inside a widening loop;
  \<^item> \<open>ValueError\<close>: \<^verbatim>\<open>chr(b)\<close> with \<open>b\<close> outside \<open>range(256)\<close>.
\<close>

datatype error =
    BufferUnderflow
  | BufferOverrun
  | UnsupportedConversion
  | ConversionError nat
  | BadWidth
  | EndianSwapError nat
  | IndexError
  | ValueError

type_synonym 'a result = "(error + 'a) \<times> data_buffer"

subsection \<open>The helpers of module util\<close>

text \<open>
  Modelled from the spec: \<^verbatim>\<open>util.mask\<close>, which is imported by \<^verbatim>\<open>iobuf.py\<close> but is not
  part of the sources. The specification describes it as a pure function "producing a bit
  mask for a given width": the \<open>n\<close> low bits set.
\<close>

definition util_mask :: "nat \<Rightarrow> int" where
  "util_mask n = push_bit n 1 - 1"

text \<open>
  Modelled from the spec: \<^verbatim>\<open>util.mask_val\<close>, not part of the sources. The specification:
  \<open>write(value)\<close> "masks \<open>value\<close> to \<open>width\<close> bits", and a read after a write returns
  \<open>value & mask(width)\<close>.
\<close>

definition util_mask_val :: "int \<Rightarrow> nat \<Rightarrow> int" where
  "util_mask_val val n = val AND util_mask n"

text \<open>
  Modelled from the spec: \<^verbatim>\<open>util.swap16\<close>, not part of the sources. The specification:
  "byte-swapping a value of a given width"; each element's constituent bytes are reversed.
\<close>

definition util_swap16 :: "int \<Rightarrow> int" where
  "util_swap16 x = push_bit 8 (x AND 255) OR (drop_bit 8 x AND 255)"

text \<open>
  Modelled from the spec: \<^verbatim>\<open>util.swap32\<close>, not part of the sources. The specification:
  "byte-swapping a value of a given width"; the four constituent bytes are reversed.
\<close>

definition util_swap32 :: "int \<Rightarrow> int" where
  "util_swap32 x =
     push_bit 24 (x AND 255) OR push_bit 16 (drop_bit 8 x AND 255) OR
     push_bit 8 (drop_bit 16 x AND 255) OR (drop_bit 24 x AND 255)"

subsection \<open>Construction, copy, read and write\<close>

text \<open>
  \<^verbatim>\<open>__init__(self, width, data = None)\<close>. The test \<^verbatim>\<open>if data:\<close> fails for \<^verbatim>\<open>None\<close> and for
  an empty sequence. The list comprehension builds a new list, so the buffer never shares
  its list with \<open>data\<close>.
\<close>

definition truthy :: "int list option \<Rightarrow> bool" where
  "truthy data = (case data of None \<Rightarrow> False | Some xs \<Rightarrow> xs \<noteq> [])"

definition data_buffer_init :: "nat \<Rightarrow> int list option \<Rightarrow> data_buffer" where
  "data_buffer_init w data =
     (let b = (if truthy data then map (\<lambda>x. x AND util_mask w) (the data) else [])
      in \<lparr>width = w, buf = b, wr_idx = length b, rd_idx = 0\<rparr>)"

definition copy :: "data_buffer \<Rightarrow> data_buffer" where
  "copy self = data_buffer_init (width self) (Some (buf self))"

definition read :: "data_buffer \<Rightarrow> int result" where
  "read self =
     (if rd_idx self < length (buf self)
      then (Inr (buf self ! rd_idx self), self\<lparr>rd_idx := rd_idx self + 1\<rparr>)
      else (Inl BufferUnderflow, self))"

text \<open>The method \<^verbatim>\<open>write\<close>; the name alone is reserved in Isabelle.\<close>

definition write_buf :: "data_buffer \<Rightarrow> int \<Rightarrow> unit result" where
  "write_buf self val0 =
     (let val = util_mask_val val0 (width self) in
      if wr_idx self = length (buf self)
      then (Inr (), self\<lparr>buf := buf self @ [val], wr_idx := wr_idx self + 1\<rparr>)
      else if wr_idx self < length (buf self)
      then (Inr (), self\<lparr>buf := (buf self)[wr_idx self := val]\<rparr>)
      else (Inl BufferOverrun, self))"

subsection \<open>Width conversion\<close>

text \<open>The narrowing loops: each element appends its chunks to \<open>new_buf\<close>.\<close>

primrec narrow_32_8 :: "string \<Rightarrow> int list \<Rightarrow> int list" where
  "narrow_32_8 mode [] = []"
| "narrow_32_8 mode (x # xs) =
     (if mode = ''be''
      then [drop_bit 24 x AND 255, drop_bit 16 x AND 255, drop_bit 8 x AND 255, x AND 255]
      else [x AND 255, drop_bit 8 x AND 255, drop_bit 16 x AND 255, drop_bit 24 x AND 255])
     @ narrow_32_8 mode xs"

primrec narrow_16_8 :: "string \<Rightarrow> int list \<Rightarrow> int list" where
  "narrow_16_8 mode [] = []"
| "narrow_16_8 mode (x # xs) =
     (if mode = ''be''
      then [drop_bit 8 x AND 255, x AND 255]
      else [x AND 255, drop_bit 8 x AND 255])
     @ narrow_16_8 mode xs"

primrec narrow_32_16 :: "string \<Rightarrow> int list \<Rightarrow> int list" where
  "narrow_32_16 mode [] = []"
| "narrow_32_16 mode (x # xs) =
     (if mode = ''be''
      then [drop_bit 16 x AND 65535, x AND 65535]
      else [x AND 65535, drop_bit 16 x AND 65535])
     @ narrow_32_16 mode xs"

text \<open>
  The widening loops \<^verbatim>\<open>for i in range(0, len(self.buf), 2)\<close> and
  \<^verbatim>\<open>for i in range(0, len(self.buf), 4)\<close>, as recursion on the rest of the list from index
  \<open>i\<close> on. A rest shorter than the group makes \<^verbatim>\<open>self.buf[i+k]\<close> raise \<^verbatim>\<open>IndexError\<close>.
\<close>

fun widen_8_16 :: "string \<Rightarrow> int list \<Rightarrow> error + int list" where
  "widen_8_16 mode [] = Inr []"
| "widen_8_16 mode [a] = Inl IndexError"
| "widen_8_16 mode (a # b # xs) =
     (let val = (if mode = ''be'' then push_bit 8 a OR b else a OR push_bit 8 b)
      in case widen_8_16 mode xs of Inl e \<Rightarrow> Inl e | Inr new_buf \<Rightarrow> Inr (val # new_buf))"

fun widen_8_32 :: "string \<Rightarrow> int list \<Rightarrow> error + int list" where
  "widen_8_32 mode [] = Inr []"
| "widen_8_32 mode (a # b # c # d # xs) =
     (let val = (if mode = ''be''
                 then push_bit 24 a OR push_bit 16 b OR push_bit 8 c OR d
                 else a OR push_bit 8 b OR push_bit 16 c OR push_bit 24 d)
      in case widen_8_32 mode xs of Inl e \<Rightarrow> Inl e | Inr new_buf \<Rightarrow> Inr (val # new_buf))"
| "widen_8_32 mode xs = Inl IndexError"

text \<open>The tail shared by the three conversions: the new list, then the index reset.\<close>

definition converted :: "data_buffer \<Rightarrow> int list \<Rightarrow> nat \<Rightarrow> data_buffer" where
  "converted self new_buf w =
     self\<lparr>buf := new_buf, wr_idx := length new_buf, rd_idx := 0, width := w\<rparr>"

definition convert8 :: "data_buffer \<Rightarrow> string \<Rightarrow> unit result" where
  "convert8 self mode =
     (if width self = 32 then (Inr (), converted self (narrow_32_8 mode (buf self)) 8)
      else if width self = 16 then (Inr (), converted self (narrow_16_8 mode (buf self)) 8)
      else if width self = 8 then (Inr (), self)
      else (Inl (ConversionError (width self)), self))"

definition convert16 :: "data_buffer \<Rightarrow> string \<Rightarrow> unit result" where
  "convert16 self mode =
     (if width self = 32 then (Inr (), converted self (narrow_32_16 mode (buf self)) 16)
      else if width self = 16 then (Inr (), self)
      else if width self = 8 then
        (let n = length (buf self) AND 1;
             self' = self\<lparr>buf := buf self @ replicate n 0\<rparr>
         in case widen_8_16 mode (buf self') of
              Inl e \<Rightarrow> (Inl e, self')
            | Inr new_buf \<Rightarrow> (Inr (), converted self' new_buf 16))
      else (Inl (ConversionError (width self)), self))"

definition convert32 :: "data_buffer \<Rightarrow> string \<Rightarrow> unit result" where
  "convert32 self mode =
     (if width self = 32 then (Inr (), self)
      else if width self = 16 then (Inl UnsupportedConversion, self)
      else if width self = 8 then
        (let n = (4 - (length (buf self) AND 3)) AND 3;
             self' = self\<lparr>buf := buf self @ replicate n 0\<rparr>
         in case widen_8_32 mode (buf self') of
              Inl e \<Rightarrow> (Inl e, self')
            | Inr new_buf \<Rightarrow> (Inr (), converted self' new_buf 32))
      else (Inl (ConversionError (width self)), self))"

definition convert :: "data_buffer \<Rightarrow> nat \<Rightarrow> string \<Rightarrow> unit result" where
  "convert self w mode =
     (if w = 8 then convert8 self mode
      else if w = 16 then convert16 self mode
      else if w = 32 then convert32 self mode
      else (Inl BadWidth, self))"

subsection \<open>Endianness inversion\<close>

definition endian_swap :: "data_buffer \<Rightarrow> unit result" where
  "endian_swap self =
     (if width self = 32 then (Inr (), self\<lparr>buf := map util_swap32 (buf self)\<rparr>)
      else if width self = 16 then (Inr (), self\<lparr>buf := map util_swap16 (buf self)\<rparr>)
      else if width self = 8 then (Inr (), self)
      else (Inl (EndianSwapError (width self)), self))"

subsection \<open>Content hash\<close>

text \<open>
  \<^verbatim>\<open>md5\<close> works on a second object, \<^verbatim>\<open>x = self.copy()\<close>, and calls the mutating
  \<^verbatim>\<open>x.convert8(mode)\<close> on it. Whether \<^verbatim>\<open>self\<close> is touched depends on \<open>x\<close> being another
  object, so \<^verbatim>\<open>md5\<close> is modelled on a heap of buffer objects: a reference is an index
  into the heap, and a newly constructed object is appended. The lists themselves need
  no addresses: \<^verbatim>\<open>__init__\<close> always binds \<^verbatim>\<open>self.buf\<close> to a list it has just built.

  \<^verbatim>\<open>chr(b)\<close> raises \<^verbatim>\<open>ValueError\<close> outside \<open>range(256)\<close>. The digest function of
  \<^verbatim>\<open>hashlib\<close> is a parameter, \<open>hexdigest\<close>, applied to the joined byte string.
\<close>

type_synonym heap = "data_buffer list"

definition chr :: "int \<Rightarrow> error + char" where
  "chr b = (if 0 \<le> b \<and> b < 256 then Inr (char_of b) else Inl ValueError)"

fun join_chr :: "int list \<Rightarrow> error + string" where
  "join_chr [] = Inr []"
| "join_chr (b # bs) =
     (case chr b of
        Inl e \<Rightarrow> Inl e
      | Inr c \<Rightarrow> (case join_chr bs of Inl e \<Rightarrow> Inl e | Inr s \<Rightarrow> Inr (c # s)))"

definition md5 :: "(string \<Rightarrow> 'd) \<Rightarrow> heap \<Rightarrow> nat \<Rightarrow> string \<Rightarrow> (error + 'd) \<times> heap" where
  "md5 hexdigest h self mode =
     (let x = length h;
          h1 = h @ [copy (h ! self)];
          (r, x') = convert8 (h1 ! x) mode;
          h2 = h1[x := x']
      in case r of
           Inl e \<Rightarrow> (Inl e, h2)
         | Inr _ \<Rightarrow>
             (case join_chr (buf (h2 ! x)) of
                Inl e \<Rightarrow> (Inl e, h2)
              | Inr s \<Rightarrow> (Inr (hexdigest s), h2)))"

subsection \<open>Sequences of calls, and the range invariant\<close>

text \<open>
  One conversion after another on the same object: the second call is not reached when
  the first one raises.
\<close>

definition then_convert :: "unit result \<Rightarrow> nat \<Rightarrow> string \<Rightarrow> unit result" where
  "then_convert r w mode = (case fst r of Inl e \<Rightarrow> r | Inr _ \<Rightarrow> convert (snd r) w mode)"

text \<open>
  The calls a client can make on a buffer it holds, and the buffer it holds afterwards:
  the same object in the state the call left it in (also when the call raised), or, for
  \<^verbatim>\<open>copy\<close>, the new object.
\<close>

datatype call = Read | Write int | Convert nat string | EndianSwap | Copy

fun apply_call :: "data_buffer \<Rightarrow> call \<Rightarrow> data_buffer" where
  "apply_call self Read = snd (read self)"
| "apply_call self (Write val) = snd (write_buf self val)"
| "apply_call self (Convert w mode) = snd (convert self w mode)"
| "apply_call self EndianSwap = snd (endian_swap self)"
| "apply_call self Copy = copy self"

text \<open>The masked-range invariant: every element \<open>e\<close> has \<open>0 \<le> e < 2 ^ width\<close>.\<close>

definition in_range :: "nat \<Rightarrow> int list \<Rightarrow> bool" where
  "in_range n xs = list_all (\<lambda>e. 0 \<le> e \<and> e < 2 ^ n) xs"

definition elements_in_range :: "data_buffer \<Rightarrow> bool" where
  "elements_in_range self = in_range (width self) (buf self)"

section \<open>Properties\<close>

subsection \<open>Bits and bytes\<close>

lemma and_255: "(x::int) AND 255 = take_bit 8 x"
  using take_bit_eq_mask [of 8 x] by (simp add: mask_eq_exp_minus_1)

lemma and_65535: "(x::int) AND 65535 = take_bit 16 x"
  using take_bit_eq_mask [of 16 x] by (simp add: mask_eq_exp_minus_1)

lemma and_util_mask: "x AND util_mask n = take_bit n x"
  by (simp add: util_mask_def take_bit_eq_mask mask_eq_exp_minus_1 push_bit_eq_mult)

lemma util_mask_val_mod: "util_mask_val v n = v mod 2 ^ n"
  by (simp add: util_mask_val_def and_util_mask take_bit_eq_mod)

lemma small_drop_bit: "0 \<le> (c::int) \<Longrightarrow> c < 2 ^ n \<Longrightarrow> n \<le> k \<Longrightarrow> drop_bit k c = 0"
  by (metis drop_bit_take_bit take_bit_int_eq_self diff_is_0_eq take_bit_0)

lemma small_take_bit: "0 \<le> (c::int) \<Longrightarrow> c < 2 ^ n \<Longrightarrow> n \<le> k \<Longrightarrow> take_bit k c = c"
  by (metis take_bit_int_eq_self take_bit_take_bit min.absorb2)

lemma take_bit_fixed_range: "take_bit n (x::int) = x \<Longrightarrow> 0 \<le> x \<and> x < 2 ^ n"
  by (metis take_bit_nonnegative take_bit_int_less_exp)

lemma take_bit_8_less: "take_bit 8 (x::int) < 256"
  using take_bit_int_less_exp [of 8 x] by simp

lemma take_bit_16_less: "take_bit 16 (x::int) < 65536"
  using take_bit_int_less_exp [of 16 x] by simp

lemmas bytes_simps =
  and_255 drop_bit_push_bit take_bit_push_bit take_bit_or drop_bit_or
  small_drop_bit [where n=8] small_take_bit [where n=8]

lemma bits_cat:
  "push_bit n (take_bit m (drop_bit n x)) OR take_bit n x = take_bit (n + m) (x::int)"
  by (rule bit_eqI) (auto simp: bit_simps)

lemma bytes_cat_be:
  "push_bit 24 (take_bit 8 (drop_bit 24 x)) OR push_bit 16 (take_bit 8 (drop_bit 16 x)) OR
   push_bit 8 (take_bit 8 (drop_bit 8 x)) OR take_bit 8 x = take_bit 32 (x::int)"
  by (simp add: bits_cat)

lemma bytes_cat_le:
  "take_bit 8 x OR push_bit 8 (take_bit 8 (drop_bit 8 x)) OR
   push_bit 16 (take_bit 8 (drop_bit 16 x)) OR push_bit 24 (take_bit 8 (drop_bit 24 x))
   = take_bit 32 (x::int)"
  unfolding bytes_cat_be [symmetric]
  by (simp only: or.assoc or.commute or.left_commute)

lemma take_drop_take_8_16:
  "take_bit 8 (drop_bit 8 (take_bit 16 y)) = take_bit 8 (drop_bit 8 (y::int))"
  by (rule bit_eqI) (auto simp: bit_simps)

subsection \<open>The byte swaps\<close>

lemma util_swap16_expand:
  "util_swap16 (util_swap16 x) = push_bit 8 (take_bit 8 (drop_bit 8 x)) OR take_bit 8 x"
  by (simp add: util_swap16_def and_255 drop_bit_or take_bit_or drop_bit_push_bit
      take_bit_push_bit drop_bit_take_bit)

lemma util_swap16_involution:
  assumes "0 \<le> x" "x < 2 ^ 16"
  shows "util_swap16 (util_swap16 x) = x"
proof -
  have "util_swap16 (util_swap16 x) = take_bit 16 x"
    by (simp add: util_swap16_expand bits_cat)
  with assms show ?thesis
    by (simp add: take_bit_int_eq_self)
qed

lemma util_swap32_expand:
  "util_swap32 (util_swap32 x) =
     push_bit 24 (take_bit 8 (drop_bit 24 x)) OR push_bit 16 (take_bit 8 (drop_bit 16 x)) OR
     push_bit 8 (take_bit 8 (drop_bit 8 x)) OR take_bit 8 x"
  by (simp add: util_swap32_def and_255 drop_bit_or take_bit_or drop_bit_push_bit
      take_bit_push_bit drop_bit_take_bit)

lemma util_swap32_involution:
  assumes "0 \<le> x" "x < 2 ^ 32"
  shows "util_swap32 (util_swap32 x) = x"
proof -
  have "util_swap32 (util_swap32 x) = take_bit 32 x"
    by (simp only: util_swap32_expand bytes_cat_be)
  with assms show ?thesis
    by (simp add: take_bit_int_eq_self)
qed

lemma util_swap16_range: "0 \<le> util_swap16 x \<and> util_swap16 x < 2 ^ 16"
proof (rule take_bit_fixed_range)
  show "take_bit 16 (util_swap16 x) = util_swap16 x"
    by (simp add: util_swap16_def and_255 take_bit_or take_bit_push_bit)
qed

lemma util_swap32_range: "0 \<le> util_swap32 x \<and> util_swap32 x < 2 ^ 32"
proof (rule take_bit_fixed_range)
  show "take_bit 32 (util_swap32 x) = util_swap32 x"
    by (simp add: util_swap32_def and_255 take_bit_or take_bit_push_bit)
qed

subsection \<open>Lists of elements in range\<close>

lemma in_range_simps [simp]:
  "in_range n []"
  "in_range n (x # xs) \<longleftrightarrow> 0 \<le> x \<and> x < 2 ^ n \<and> in_range n xs"
  "in_range n (xs @ ys) \<longleftrightarrow> in_range n xs \<and> in_range n ys"
  "in_range n (replicate k 0)"
  by (auto simp: in_range_def list_all_iff)

lemma in_range_take_bit: "in_range n (map (take_bit n) xs)"
  by (induction xs) simp_all

lemma in_range_update:
  "in_range n xs \<Longrightarrow> 0 \<le> v \<Longrightarrow> v < 2 ^ n \<Longrightarrow> in_range n (xs[i := v])"
  unfolding in_range_def list_all_iff
  using set_update_subset_insert [of xs i v] by auto

lemma in_range_swap16: "in_range 16 (map util_swap16 xs)"
  using util_swap16_range by (induction xs) simp_all

lemma in_range_swap32: "in_range 32 (map util_swap32 xs)"
  using util_swap32_range by (induction xs) simp_all

lemma swap16_twice_comp: "in_range 16 xs \<Longrightarrow> map (util_swap16 \<circ> util_swap16) xs = xs"
  by (induction xs) (simp_all add: util_swap16_involution)

lemma swap32_twice_comp: "in_range 32 xs \<Longrightarrow> map (util_swap32 \<circ> util_swap32) xs = xs"
  by (induction xs) (simp_all add: util_swap32_involution)

subsection \<open>The narrowing and widening loops\<close>

lemma in_range_narrow_32_8: "in_range 8 (narrow_32_8 mode xs)"
  by (induction xs) (simp_all add: and_255 take_bit_8_less)

lemma in_range_narrow_16_8: "in_range 8 (narrow_16_8 mode xs)"
  by (induction xs) (simp_all add: and_255 take_bit_8_less)

lemma in_range_narrow_32_16: "in_range 16 (narrow_32_16 mode xs)"
  by (induction xs) (simp_all add: and_65535 take_bit_16_less)

lemma widen_8_16_even: "even (length xs) \<Longrightarrow> \<exists>ys. widen_8_16 mode xs = Inr ys"
  by (induction mode xs rule: widen_8_16.induct) auto

lemma dvd_4_Suc4: "4 dvd Suc (Suc (Suc (Suc n))) \<longleftrightarrow> 4 dvd n"
  by presburger

lemma widen_8_32_dvd: "4 dvd length xs \<Longrightarrow> \<exists>ys. widen_8_32 mode xs = Inr ys"
proof (induction mode xs rule: widen_8_32.induct)
  case (2 mode a b c d xs)
  then show ?case
    by (auto simp: dvd_4_Suc4)
qed (simp_all, presburger+)

lemma narrow_widen_16:
  "in_range 8 xs \<Longrightarrow> widen_8_16 mode xs = Inr ys \<Longrightarrow> narrow_16_8 mode ys = xs"
proof (induction mode xs arbitrary: ys rule: widen_8_16.induct)
  case (3 mode a b xs)
  then obtain zs where zs: "widen_8_16 mode xs = Inr zs"
    by (auto split: sum.splits)
  with 3 have "narrow_16_8 mode zs = xs"
    by simp
  with 3 zs show ?case
    by (auto simp: bytes_simps)
qed simp_all

lemma narrow_widen_32:
  "in_range 8 xs \<Longrightarrow> widen_8_32 mode xs = Inr ys \<Longrightarrow> narrow_32_8 mode ys = xs"
proof (induction mode xs arbitrary: ys rule: widen_8_32.induct)
  case (2 mode a b c d xs)
  then obtain zs where zs: "widen_8_32 mode xs = Inr zs"
    by (auto split: sum.splits)
  with 2 have "narrow_32_8 mode zs = xs"
    by simp
  with 2 zs show ?case
    by (auto simp: bytes_simps)
qed simp_all

lemma in_range_widen_8_16:
  "in_range 8 xs \<Longrightarrow> widen_8_16 mode xs = Inr ys \<Longrightarrow> in_range 16 ys"
proof (induction mode xs arbitrary: ys rule: widen_8_16.induct)
  case (3 mode a b xs)
  then obtain zs where zs: "widen_8_16 mode xs = Inr zs"
    by (auto split: sum.splits)
  with 3 have zs_range: "in_range 16 zs"
    by simp
  let ?be = "push_bit 8 a OR b"
  let ?le = "a OR push_bit 8 b"
  from 3 have "take_bit 16 ?be = ?be" and "take_bit 16 ?le = ?le"
    by (simp_all add: bytes_simps)
  then have "0 \<le> ?be \<and> ?be < 2 ^ 16" and "0 \<le> ?le \<and> ?le < 2 ^ 16"
    by (simp_all only: take_bit_fixed_range)
  with 3 zs zs_range show ?case
    by auto
qed simp_all

lemma in_range_widen_8_32:
  "in_range 8 xs \<Longrightarrow> widen_8_32 mode xs = Inr ys \<Longrightarrow> in_range 32 ys"
proof (induction mode xs arbitrary: ys rule: widen_8_32.induct)
  case (2 mode a b c d xs)
  then obtain zs where zs: "widen_8_32 mode xs = Inr zs"
    by (auto split: sum.splits)
  with 2 have zs_range: "in_range 32 zs"
    by simp
  let ?be = "push_bit 24 a OR push_bit 16 b OR push_bit 8 c OR d"
  let ?le = "a OR push_bit 8 b OR push_bit 16 c OR push_bit 24 d"
  from 2 have "take_bit 32 ?be = ?be" and "take_bit 32 ?le = ?le"
    by (simp_all add: bytes_simps)
  then have "0 \<le> ?be \<and> ?be < 2 ^ 32" and "0 \<le> ?le \<and> ?le < 2 ^ 32"
    by (simp_all only: take_bit_fixed_range)
  with 2 zs zs_range show ?case
    by auto
qed simp_all

lemma widen_narrow_32:
  "in_range 32 xs \<Longrightarrow> widen_8_32 mode (narrow_32_8 mode xs) = Inr xs"
proof (induction xs)
  case (Cons x xs)
  then have "take_bit 32 x = x"
    by (simp add: take_bit_int_eq_self)
  with Cons show ?case
    by (cases "mode = ''be''") (simp_all add: and_255 bytes_cat_be bytes_cat_le)
qed simp

lemma narrow_16_8_narrow_32_16: "narrow_16_8 mode (narrow_32_16 mode xs) = narrow_32_8 mode xs"
  by (induction xs) (auto simp: and_255 and_65535 take_drop_take_8_16)

lemma length_narrow_32_8: "length (narrow_32_8 mode xs) = 4 * length xs"
  by (induction xs) simp_all

subsection \<open>Padding\<close>

lemma and_3: "(n::nat) AND 3 = n mod 4"
  using take_bit_eq_mask [of 2 n] by (simp add: mask_eq_exp_minus_1 take_bit_eq_mod)

lemma pad_4_count: "(4 - (n AND 3)) AND 3 = (4 - n mod 4) mod (4::nat)"
  by (simp add: and_3)

lemma pad_4_dvd: "4 dvd n + (4 - n mod 4) mod (4::nat)"
proof -
  define r where "r = n mod 4"
  have "r < 4"
    by (simp add: r_def)
  then have "r = 0 \<or> r = 1 \<or> r = 2 \<or> r = 3"
    by linarith
  then have "(r + (4 - r) mod 4) mod 4 = 0"
    by auto
  moreover have "(n + (4 - r) mod 4) mod 4 = (r + (4 - r) mod 4) mod 4"
    unfolding r_def by (rule mod_add_left_eq [symmetric])
  ultimately show ?thesis
    unfolding r_def by (simp only: dvd_eq_mod_eq_0)
qed

lemma pad_2_even: "even (n + n mod (2::nat))"
  by presburger

subsection \<open>What each conversion returns\<close>

lemma converted_eq:
  "converted self new_buf w = \<lparr>width = w, buf = new_buf, wr_idx = length new_buf, rd_idx = 0\<rparr>"
  by (cases self) (simp add: converted_def)

lemma convert_same:
  "width self = w \<Longrightarrow> w \<in> {8, 16, 32} \<Longrightarrow> convert self w mode = (Inr (), self)"
  by (auto simp: convert_def convert8_def convert16_def convert32_def)

lemma convert_32_8:
  "width self = 32 \<Longrightarrow>
     convert self 8 mode = (Inr (), converted self (narrow_32_8 mode (buf self)) 8)"
  by (simp add: convert_def convert8_def)

lemma convert_16_8:
  "width self = 16 \<Longrightarrow>
     convert self 8 mode = (Inr (), converted self (narrow_16_8 mode (buf self)) 8)"
  by (simp add: convert_def convert8_def)

lemma convert_32_16:
  "width self = 32 \<Longrightarrow>
     convert self 16 mode = (Inr (), converted self (narrow_32_16 mode (buf self)) 16)"
  by (simp add: convert_def convert16_def)

lemma convert_8_16:
  assumes "width self = 8"
  shows "\<exists>ys. widen_8_16 mode (buf self @ replicate (length (buf self) mod 2) 0) = Inr ys
           \<and> convert self 16 mode = (Inr (), converted self ys 16)"
proof -
  let ?padded = "buf self @ replicate (length (buf self) mod 2) 0"
  have "even (length ?padded)"
    by (simp add: pad_2_even)
  then obtain ys where "widen_8_16 mode ?padded = Inr ys"
    using widen_8_16_even by blast
  with assms show ?thesis
    by (simp add: convert_def convert16_def and_one_eq converted_eq)
qed

lemma convert_8_32:
  assumes "width self = 8"
  shows "\<exists>ys. widen_8_32 mode (buf self @ replicate ((4 - length (buf self) mod 4) mod 4) 0) = Inr ys
           \<and> convert self 32 mode = (Inr (), converted self ys 32)"
proof -
  let ?padded = "buf self @ replicate ((4 - length (buf self) mod 4) mod 4) 0"
  have "4 dvd length ?padded"
    by (simp add: pad_4_dvd)
  then obtain ys where "widen_8_32 mode ?padded = Inr ys"
    using widen_8_32_dvd by blast
  with assms show ?thesis
    by (simp add: convert_def convert32_def pad_4_count converted_eq)
qed

lemma round_trip_8_16_8:
  assumes "width self = 8" "in_range 8 (buf self)"
  shows "then_convert (convert self 16 mode) 8 mode
           = (Inr (), converted self (buf self @ replicate (length (buf self) mod 2) 0) 8)"
proof -
  let ?padded = "buf self @ replicate (length (buf self) mod 2) 0"
  obtain ys where ys: "widen_8_16 mode ?padded = Inr ys"
    and c: "convert self 16 mode = (Inr (), converted self ys 16)"
    using convert_8_16 [OF assms(1)] by blast
  from assms(2) have "in_range 8 ?padded"
    by simp
  from this ys have "narrow_16_8 mode ys = ?padded"
    by (rule narrow_widen_16)
  then show ?thesis
    by (simp add: then_convert_def c convert_16_8 converted_eq)
qed

lemma round_trip_8_32_8:
  assumes "width self = 8" "in_range 8 (buf self)"
  shows "then_convert (convert self 32 mode) 8 mode
           = (Inr (), converted self (buf self @ replicate ((4 - length (buf self) mod 4) mod 4) 0) 8)"
proof -
  let ?padded = "buf self @ replicate ((4 - length (buf self) mod 4) mod 4) 0"
  obtain ys where ys: "widen_8_32 mode ?padded = Inr ys"
    and c: "convert self 32 mode = (Inr (), converted self ys 32)"
    using convert_8_32 [OF assms(1)] by blast
  from assms(2) have "in_range 8 ?padded"
    by simp
  from this ys have "narrow_32_8 mode ys = ?padded"
    by (rule narrow_widen_32)
  then show ?thesis
    by (simp add: then_convert_def c convert_32_8 converted_eq)
qed

lemma convert_narrowed_32:
  assumes "in_range 32 xs"
  shows "convert (converted self (narrow_32_8 mode xs) 8) 32 mode = (Inr (), converted self xs 32)"
proof -
  let ?s = "converted self (narrow_32_8 mode xs) 8"
  have w: "width ?s = 8" and b: "buf ?s = narrow_32_8 mode xs"
    by (simp_all add: converted_eq)
  obtain ys
    where ys: "widen_8_32 mode (buf ?s @ replicate ((4 - length (buf ?s) mod 4) mod 4) 0) = Inr ys"
    and c: "convert ?s 32 mode = (Inr (), converted ?s ys 32)"
    using convert_8_32 [OF w] by blast
  from ys have "widen_8_32 mode (narrow_32_8 mode xs) = Inr ys"
    by (simp add: b length_narrow_32_8)
  with assms have "ys = xs"
    by (simp add: widen_narrow_32)
  with c show ?thesis
    by (simp add: converted_eq)
qed

lemma round_trip_32_8_32:
  assumes "width self = 32" "in_range 32 (buf self)"
  shows "then_convert (convert self 8 mode) 32 mode = (Inr (), converted self (buf self) 32)"
  using assms by (simp add: then_convert_def convert_32_8 convert_narrowed_32)

lemma round_trip_32_16_8_32:
  assumes "width self = 32" "in_range 32 (buf self)"
  shows "then_convert (then_convert (convert self 16 mode) 8 mode) 32 mode
           = (Inr (), converted self (buf self) 32)"
proof -
  have "then_convert (convert self 16 mode) 8 mode
          = (Inr (), converted self (narrow_32_8 mode (buf self)) 8)"
    using assms(1)
    by (simp add: then_convert_def convert_32_16 convert_16_8 converted_eq
        narrow_16_8_narrow_32_16)
  with assms(2) show ?thesis
    by (simp add: then_convert_def convert_narrowed_32)
qed

subsection \<open>Preservation of the range invariant\<close>

lemma init_in_range: "elements_in_range (data_buffer_init w data)"
  by (simp add: elements_in_range_def data_buffer_init_def and_util_mask in_range_take_bit)

lemma copy_in_range: "elements_in_range (copy self)"
  by (simp add: copy_def init_in_range)

lemma read_in_range: "elements_in_range self \<Longrightarrow> elements_in_range (snd (read self))"
  by (simp add: read_def elements_in_range_def)

lemma write_in_range: "elements_in_range self \<Longrightarrow> elements_in_range (snd (write_buf self v))"
  by (simp add: write_buf_def Let_def elements_in_range_def util_mask_val_mod in_range_update)

lemma endian_swap_in_range:
  "elements_in_range self \<Longrightarrow> elements_in_range (snd (endian_swap self))"
  by (auto simp: endian_swap_def elements_in_range_def in_range_swap16 in_range_swap32)

lemma convert8_in_range:
  "elements_in_range self \<Longrightarrow> elements_in_range (snd (convert8 self mode))"
  by (auto simp: convert8_def elements_in_range_def converted_eq
      in_range_narrow_32_8 in_range_narrow_16_8)

lemma convert16_in_range:
  assumes "elements_in_range self"
  shows "elements_in_range (snd (convert16 self mode))"
proof (cases "width self = 8")
  case True
  let ?padded = "buf self @ replicate (length (buf self) mod 2) 0"
  obtain ys where ys: "widen_8_16 mode ?padded = Inr ys"
    and c: "convert self 16 mode = (Inr (), converted self ys 16)"
    using convert_8_16 [OF True] by blast
  from assms True have "in_range 8 ?padded"
    by (simp add: elements_in_range_def)
  with ys have "in_range 16 ys"
    using in_range_widen_8_16 by blast
  with c show ?thesis
    by (simp add: convert_def elements_in_range_def converted_eq)
next
  case False
  with assms show ?thesis
    by (auto simp: convert16_def elements_in_range_def converted_eq in_range_narrow_32_16)
qed

lemma convert32_in_range:
  assumes "elements_in_range self"
  shows "elements_in_range (snd (convert32 self mode))"
proof (cases "width self = 8")
  case True
  let ?padded = "buf self @ replicate ((4 - length (buf self) mod 4) mod 4) 0"
  obtain ys where ys: "widen_8_32 mode ?padded = Inr ys"
    and c: "convert self 32 mode = (Inr (), converted self ys 32)"
    using convert_8_32 [OF True] by blast
  from assms True have "in_range 8 ?padded"
    by (simp add: elements_in_range_def)
  with ys have "in_range 32 ys"
    using in_range_widen_8_32 by blast
  with c show ?thesis
    by (simp add: convert_def elements_in_range_def converted_eq)
next
  case False
  with assms show ?thesis
    by (simp add: convert32_def)
qed

lemma convert_in_range:
  "elements_in_range self \<Longrightarrow> elements_in_range (snd (convert self w mode))"
  by (simp add: convert_def convert8_in_range convert16_in_range convert32_in_range)

lemma apply_call_in_range:
  "elements_in_range self \<Longrightarrow> elements_in_range (apply_call self c)"
  by (cases c)
    (simp_all add: read_in_range write_in_range convert_in_range endian_swap_in_range
      copy_in_range)

lemma foldl_apply_call_in_range:
  "elements_in_range self \<Longrightarrow> elements_in_range (foldl apply_call self calls)"
  by (induction calls arbitrary: self) (simp_all add: apply_call_in_range)

subsection \<open>The content hash on the heap\<close>

lemma join_chr_in_range: "in_range 8 xs \<Longrightarrow> join_chr xs = Inr (map char_of xs)"
  by (induction xs) (simp_all add: chr_def)

lemma md5_unfold:
  "md5 hexdigest h self mode =
     (let r = convert8 (copy (h ! self)) mode; h2 = h @ [snd r]
      in case fst r of
           Inl e \<Rightarrow> (Inl e, h2)
         | Inr _ \<Rightarrow>
             (case join_chr (buf (snd r)) of
                Inl e \<Rightarrow> (Inl e, h2)
              | Inr s \<Rightarrow> (Inr (hexdigest s), h2)))"
  by (simp add: md5_def Let_def case_prod_beta list_update_length nth_append_length
      cong: sum.case_cong)

lemma md5_heap: "snd (md5 hexdigest h self mode) = h @ [snd (convert8 (copy (h ! self)) mode)]"
  by (simp add: md5_unfold Let_def split: sum.splits)

lemma md5_fst:
  "fst (md5 hexdigest h self mode) =
     (case fst (convert8 (copy (h ! self)) mode) of
        Inl e \<Rightarrow> Inl e
      | Inr _ \<Rightarrow>
          (case join_chr (buf (snd (convert8 (copy (h ! self)) mode))) of
             Inl e \<Rightarrow> Inl e
           | Inr s \<Rightarrow> Inr (hexdigest s)))"
  by (simp add: md5_unfold Let_def split: sum.splits)

lemma copy_cursors_irrelevant:
  "width a = width b \<Longrightarrow> buf a = buf b \<Longrightarrow> copy a = copy b"
  by (simp add: copy_def)

lemma md5_digest:
  assumes "width (h ! self) \<in> {8, 16, 32}"
  shows "fst (md5 hexdigest h self mode)
           = Inr (hexdigest (map char_of (buf (snd (convert8 (copy (h ! self)) mode)))))"
proof -
  let ?x = "snd (convert8 (copy (h ! self)) mode)"
  have "width (copy (h ! self)) = width (h ! self)"
    by (simp add: copy_def data_buffer_init_def)
  with assms have ok: "fst (convert8 (copy (h ! self)) mode) = Inr ()" and w: "width ?x = 8"
    by (auto simp: convert8_def converted_eq)
  have "elements_in_range ?x"
    by (simp add: convert8_in_range copy_in_range)
  with w have "join_chr (buf ?x) = Inr (map char_of (buf ?x))"
    by (simp add: elements_in_range_def join_chr_in_range)
  with ok show ?thesis
    by (simp add: md5_unfold Let_def)
qed

section \<open>The claims\<close>

subsection \<open>Conversion resets width and cursors\<close>

text \<open>
  C1, as stated, wants the read cursor at 0 after every supported conversion, the identity
  included. It fails there: an 8-bit buffer \<open>[1, 2]\<close> that has been read once has its read
  cursor at 1, and \<open>convert(8, 'le')\<close> returns with the cursor still at 1, because
  \<^verbatim>\<open>convert8\<close> returns at "nothing to do" before the index reset.
\<close>

theorem convert_identity_keeps_read_cursor:
  "read (data_buffer_init 8 (Some [1, 2]))
     = (Inr 1, \<lparr>width = 8, buf = [1, 2], wr_idx = 2, rd_idx = 1\<rparr>)
   \<and> convert \<lparr>width = 8, buf = [1, 2], wr_idx = 2, rd_idx = 1\<rparr> 8 ''le''
     = (Inr (), \<lparr>width = 8, buf = [1, 2], wr_idx = 2, rd_idx = 1\<rparr>)
   \<and> rd_idx (snd (convert \<lparr>width = 8, buf = [1, 2], wr_idx = 2, rd_idx = 1\<rparr> 8 ''le'')) \<noteq> 0"
  by (simp add: read_def data_buffer_init_def truthy_def util_mask_def convert_def convert8_def)

text \<open>
  C1, amended. For every buffer of width 8, 16 or 32 and every target width in
  \<open>{8, 16, 32}\<close> other than the transition 16 to 32, \<open>convert\<close> returns normally and the
  buffer's width is the target width. When the target width differs from the buffer's
  width, the read cursor is 0 and the write cursor is \<open>len(elements)\<close> afterwards. When
  the target width is the buffer's width, the call is a no-op: the buffer, cursors
  included, is exactly as before.
\<close>

theorem convert_sets_width_and_cursors:
  "width self \<in> {8, 16, 32} \<Longrightarrow> w \<in> {8, 16, 32} \<Longrightarrow> \<not> (width self = 16 \<and> w = 32) \<Longrightarrow>
     fst (convert self w mode) = Inr ()
     \<and> width (snd (convert self w mode)) = w
     \<and> (width self \<noteq> w \<longrightarrow>
          rd_idx (snd (convert self w mode)) = 0
          \<and> wr_idx (snd (convert self w mode)) = length (buf (snd (convert self w mode))))
     \<and> (width self = w \<longrightarrow> snd (convert self w mode) = self)"
proof -
  assume "width self \<in> {8, 16, 32}" "w \<in> {8, 16, 32}" "\<not> (width self = 16 \<and> w = 32)"
  then consider (same) "width self = w" "w \<in> {8, 16, 32}"
    | (n32_8) "width self = 32" "w = 8"
    | (n16_8) "width self = 16" "w = 8"
    | (n32_16) "width self = 32" "w = 16"
    | (w8_16) "width self = 8" "w = 16"
    | (w8_32) "width self = 8" "w = 32"
    by auto
  then show ?thesis
  proof cases
    case same
    then show ?thesis
      by (simp add: convert_same)
  next
    case n32_8
    then show ?thesis
      by (simp add: convert_32_8 converted_eq)
  next
    case n16_8
    then show ?thesis
      by (simp add: convert_16_8 converted_eq)
  next
    case n32_16
    then show ?thesis
      by (simp add: convert_32_16 converted_eq)
  next
    case w8_16
    then obtain ys where "convert self 16 mode = (Inr (), converted self ys 16)"
      using convert_8_16 by blast
    with w8_16 show ?thesis
      by (simp add: converted_eq)
  next
    case w8_32
    then obtain ys where "convert self 32 mode = (Inr (), converted self ys 32)"
      using convert_8_32 by blast
    with w8_32 show ?thesis
      by (simp add: converted_eq)
  qed
qed

theorem convert_sets_width_and_cursors_witness:
  "fst (convert \<lparr>width = 8, buf = [1, 2, 3], wr_idx = 1, rd_idx = 2\<rparr> 32 ''be'') = Inr ()
   \<and> width (snd (convert \<lparr>width = 8, buf = [1, 2, 3], wr_idx = 1, rd_idx = 2\<rparr> 32 ''be'')) = 32
   \<and> rd_idx (snd (convert \<lparr>width = 8, buf = [1, 2, 3], wr_idx = 1, rd_idx = 2\<rparr> 32 ''be'')) = 0
   \<and> wr_idx (snd (convert \<lparr>width = 8, buf = [1, 2, 3], wr_idx = 1, rd_idx = 2\<rparr> 32 ''be''))
       = length (buf (snd (convert \<lparr>width = 8, buf = [1, 2, 3], wr_idx = 1, rd_idx = 2\<rparr> 32 ''be'')))
   \<and> snd (convert \<lparr>width = 16, buf = [7], wr_idx = 0, rd_idx = 1\<rparr> 16 ''be'')
       = \<lparr>width = 16, buf = [7], wr_idx = 0, rd_idx = 1\<rparr>"
  using convert_sets_width_and_cursors
      [of "\<lparr>width = 8, buf = [1, 2, 3], wr_idx = 1, rd_idx = 2\<rparr>" 32 "''be''"]
    convert_sets_width_and_cursors
      [of "\<lparr>width = 16, buf = [7], wr_idx = 0, rd_idx = 1\<rparr>" 16 "''be''"]
  by simp

subsection \<open>Conversion scenarios\<close>

text \<open>
  C2. The 8-bit buffer built from \<open>[0x01, 0x02, 0x03, 0x04]\<close>, converted to 16 bits, holds
  \<open>[0x0201, 0x0403]\<close> in little-endian mode and \<open>[0x0102, 0x0304]\<close> in big-endian mode; the
  odd-length 8-bit buffer \<open>[0x01, 0x02, 0x03]\<close>, converted to 16 bits in little-endian mode,
  holds \<open>[0x0201, 0x0003]\<close>: the sequence is zero-padded at the end before grouping.
\<close>

theorem convert16_scenarios:
  "convert (data_buffer_init 8 (Some [0x01, 0x02, 0x03, 0x04])) 16 ''le''
     = (Inr (), \<lparr>width = 16, buf = [0x0201, 0x0403], wr_idx = 2, rd_idx = 0\<rparr>)
   \<and> convert (data_buffer_init 8 (Some [0x01, 0x02, 0x03, 0x04])) 16 ''be''
     = (Inr (), \<lparr>width = 16, buf = [0x0102, 0x0304], wr_idx = 2, rd_idx = 0\<rparr>)
   \<and> convert (data_buffer_init 8 (Some [0x01, 0x02, 0x03])) 16 ''le''
     = (Inr (), \<lparr>width = 16, buf = [0x0201, 0x0003], wr_idx = 2, rd_idx = 0\<rparr>)"
  by (simp add: convert_def convert16_def converted_def data_buffer_init_def truthy_def
      util_mask_def)

subsection \<open>Round trips\<close>

text \<open>
  C3. Let every element of the buffer be in the range of its width, as for every buffer
  the class produces. With the same byte order in every step:
  \<^item> 8 to 16 and back to 8 succeeds and leaves the original elements followed by
    \<open>len mod 2\<close> zero elements, hence the original elements when the length was even;
  \<^item> 8 to 32 and back to 8 succeeds and leaves the original elements followed by
    \<open>(4 - len mod 4) mod 4\<close> zero elements, hence the original elements when the length
    was a multiple of 4;
  \<^item> 32 to 8 and back to 32 succeeds and leaves the original elements;
  \<^item> 32 to 16, then to 8, then to 32 succeeds and leaves the original elements.
\<close>

theorem convert_round_trips:
  "elements_in_range self \<Longrightarrow>
     (width self = 8 \<longrightarrow>
        fst (then_convert (convert self 16 mode) 8 mode) = Inr ()
        \<and> buf (snd (then_convert (convert self 16 mode) 8 mode))
            = buf self @ replicate (length (buf self) mod 2) 0
        \<and> (even (length (buf self)) \<longrightarrow>
              buf (snd (then_convert (convert self 16 mode) 8 mode)) = buf self)
        \<and> fst (then_convert (convert self 32 mode) 8 mode) = Inr ()
        \<and> buf (snd (then_convert (convert self 32 mode) 8 mode))
            = buf self @ replicate ((4 - length (buf self) mod 4) mod 4) 0
        \<and> (4 dvd length (buf self) \<longrightarrow>
              buf (snd (then_convert (convert self 32 mode) 8 mode)) = buf self))
     \<and> (width self = 32 \<longrightarrow>
        fst (then_convert (convert self 8 mode) 32 mode) = Inr ()
        \<and> buf (snd (then_convert (convert self 8 mode) 32 mode)) = buf self
        \<and> fst (then_convert (then_convert (convert self 16 mode) 8 mode) 32 mode) = Inr ()
        \<and> buf (snd (then_convert (then_convert (convert self 16 mode) 8 mode) 32 mode))
            = buf self)"
proof (intro conjI impI)
  assume ok: "elements_in_range self" and w: "width self = 8"
  then have r: "in_range 8 (buf self)"
    by (simp add: elements_in_range_def)
  note rt16 = round_trip_8_16_8 [OF w r, of mode]
  note rt32 = round_trip_8_32_8 [OF w r, of mode]
  show "fst (then_convert (convert self 16 mode) 8 mode) = Inr ()"
    by (simp add: rt16)
  show "buf (snd (then_convert (convert self 16 mode) 8 mode))
          = buf self @ replicate (length (buf self) mod 2) 0"
    by (simp add: rt16 converted_eq)
  show "buf (snd (then_convert (convert self 16 mode) 8 mode)) = buf self"
    if "even (length (buf self))"
    using that by (simp add: rt16 converted_eq)
  show "fst (then_convert (convert self 32 mode) 8 mode) = Inr ()"
    by (simp add: rt32)
  show "buf (snd (then_convert (convert self 32 mode) 8 mode))
          = buf self @ replicate ((4 - length (buf self) mod 4) mod 4) 0"
    by (simp add: rt32 converted_eq)
  show "buf (snd (then_convert (convert self 32 mode) 8 mode)) = buf self"
    if "4 dvd length (buf self)"
    using that by (simp add: rt32 converted_eq dvd_eq_mod_eq_0)
next
  assume ok: "elements_in_range self" and w: "width self = 32"
  then have r: "in_range 32 (buf self)"
    by (simp add: elements_in_range_def)
  note rt8 = round_trip_32_8_32 [OF w r, of mode]
  note rt16 = round_trip_32_16_8_32 [OF w r, of mode]
  show "fst (then_convert (convert self 8 mode) 32 mode) = Inr ()"
    by (simp add: rt8)
  show "buf (snd (then_convert (convert self 8 mode) 32 mode)) = buf self"
    by (simp add: rt8 converted_eq)
  show "fst (then_convert (then_convert (convert self 16 mode) 8 mode) 32 mode) = Inr ()"
    by (simp add: rt16)
  show "buf (snd (then_convert (then_convert (convert self 16 mode) 8 mode) 32 mode)) = buf self"
    by (simp add: rt16 converted_eq)
qed

theorem convert_round_trips_witness:
  "buf (snd (then_convert (convert \<lparr>width = 8, buf = [1, 2, 3], wr_idx = 3, rd_idx = 0\<rparr>
       16 ''le'') 8 ''le'')) = [1, 2, 3, 0]
   \<and> buf (snd (then_convert (convert \<lparr>width = 8, buf = [1, 2, 3], wr_idx = 3, rd_idx = 0\<rparr>
       32 ''le'') 8 ''le'')) = [1, 2, 3, 0]
   \<and> buf (snd (then_convert (convert \<lparr>width = 8, buf = [1, 2, 3, 4], wr_idx = 4, rd_idx = 0\<rparr>
       16 ''be'') 8 ''be'')) = [1, 2, 3, 4]
   \<and> buf (snd (then_convert (convert \<lparr>width = 8, buf = [1, 2, 3, 4], wr_idx = 4, rd_idx = 0\<rparr>
       32 ''be'') 8 ''be'')) = [1, 2, 3, 4]
   \<and> buf (snd (then_convert (convert
       \<lparr>width = 32, buf = [0x01020304, 0xdeadbeef], wr_idx = 2, rd_idx = 0\<rparr>
       8 ''be'') 32 ''be'')) = [0x01020304, 0xdeadbeef]
   \<and> buf (snd (then_convert (then_convert (convert
       \<lparr>width = 32, buf = [0x01020304, 0xdeadbeef], wr_idx = 2, rd_idx = 0\<rparr>
       16 ''le'') 8 ''le'') 32 ''le'')) = [0x01020304, 0xdeadbeef]"
  using convert_round_trips
      [of "\<lparr>width = 8, buf = [1, 2, 3], wr_idx = 3, rd_idx = 0\<rparr>" "''le''"]
    convert_round_trips
      [of "\<lparr>width = 8, buf = [1, 2, 3, 4], wr_idx = 4, rd_idx = 0\<rparr>" "''be''"]
    convert_round_trips
      [of "\<lparr>width = 32, buf = [0x01020304, 0xdeadbeef], wr_idx = 2, rd_idx = 0\<rparr>" "''be''"]
    convert_round_trips
      [of "\<lparr>width = 32, buf = [0x01020304, 0xdeadbeef], wr_idx = 2, rd_idx = 0\<rparr>" "''le''"]
  by (simp add: elements_in_range_def)

subsection \<open>The unsupported conversion\<close>

text \<open>
  C4. On every 16-bit buffer, whatever it holds and whatever the byte order, a conversion
  to 32 bits fails with UnsupportedConversion, and the buffer is left as it was: no
  element, width or cursor is replaced by a converted one.
\<close>

theorem convert_16_32_unsupported:
  "width self = 16 \<Longrightarrow> convert self 32 mode = (Inl UnsupportedConversion, self)"
  by (simp add: convert_def convert32_def)

theorem convert_16_32_unsupported_witness:
  "convert \<lparr>width = 16, buf = [0x1234, 0xffff], wr_idx = 2, rd_idx = 1\<rparr> 32 ''be''
     = (Inl UnsupportedConversion, \<lparr>width = 16, buf = [0x1234, 0xffff], wr_idx = 2, rd_idx = 1\<rparr>)"
  using convert_16_32_unsupported
    [of "\<lparr>width = 16, buf = [0x1234, 0xffff], wr_idx = 2, rd_idx = 1\<rparr>" "''be''"]
  by simp

subsection \<open>Writing\<close>

text \<open>
  C5. \<open>write(value)\<close> stores \<open>value mod 2 ^ width\<close>. With the write cursor at the end of the
  elements it appends the masked value and advances the write cursor by 1. With the write
  cursor inside the elements it overwrites the element at the cursor, and neither the
  cursor nor the length changes. With the write cursor beyond the end it fails with
  BufferOverrun, and the buffer is as before.
\<close>

theorem write_buf_cases:
  "(wr_idx self = length (buf self) \<longrightarrow>
      write_buf self v =
        (Inr (), self\<lparr>buf := buf self @ [v mod 2 ^ width self], wr_idx := wr_idx self + 1\<rparr>))
   \<and> (wr_idx self < length (buf self) \<longrightarrow>
      write_buf self v = (Inr (), self\<lparr>buf := (buf self)[wr_idx self := v mod 2 ^ width self]\<rparr>)
      \<and> wr_idx (snd (write_buf self v)) = wr_idx self
      \<and> length (buf (snd (write_buf self v))) = length (buf self))
   \<and> (wr_idx self > length (buf self) \<longrightarrow> write_buf self v = (Inl BufferOverrun, self))"
  by (simp add: write_buf_def util_mask_val_mod)

theorem write_buf_cases_witness:
  "write_buf \<lparr>width = 8, buf = [1, 2], wr_idx = 2, rd_idx = 0\<rparr> 0x1ff
     = (Inr (), \<lparr>width = 8, buf = [1, 2, 0xff], wr_idx = 3, rd_idx = 0\<rparr>)
   \<and> write_buf \<lparr>width = 8, buf = [1, 2], wr_idx = 1, rd_idx = 0\<rparr> (- 1)
     = (Inr (), \<lparr>width = 8, buf = [1, 0xff], wr_idx = 1, rd_idx = 0\<rparr>)
   \<and> write_buf \<lparr>width = 8, buf = [1, 2], wr_idx = 3, rd_idx = 0\<rparr> 5
     = (Inl BufferOverrun, \<lparr>width = 8, buf = [1, 2], wr_idx = 3, rd_idx = 0\<rparr>)"
  using write_buf_cases [of "\<lparr>width = 8, buf = [1, 2], wr_idx = 2, rd_idx = 0\<rparr>" "0x1ff"]
    write_buf_cases [of "\<lparr>width = 8, buf = [1, 2], wr_idx = 1, rd_idx = 0\<rparr>" "- 1"]
    write_buf_cases [of "\<lparr>width = 8, buf = [1, 2], wr_idx = 3, rd_idx = 0\<rparr>" "5"]
  by simp

subsection \<open>The range invariant\<close>

text \<open>
  C6. Start from a constructed buffer, of any width and with any initial data, and make
  any sequence of \<open>read\<close>, \<open>write\<close>, \<open>convert\<close>, \<open>endian_swap\<close> and \<open>copy\<close> calls, whether
  they return or raise. Every element \<open>e\<close> of the buffer held at the end satisfies
  \<open>0 \<le> e < 2 ^ width\<close> for the buffer's current width.
\<close>

theorem reachable_elements_in_range:
  "elements_in_range (foldl apply_call (data_buffer_init w data) calls)"
  by (simp add: foldl_apply_call_in_range init_in_range)

theorem reachable_elements_in_range_witness:
  "elements_in_range
     (foldl apply_call (data_buffer_init 8 (Some [300, - 1]))
        [Write 511, Convert 16 ''le'', EndianSwap, Copy, Read, Convert 32 ''be''])"
  using reachable_elements_in_range
      [of 8 "Some [300, - 1]"
          "[Write 511, Convert 16 ''le'', EndianSwap, Copy, Read, Convert 32 ''be'']"]
  by simp

subsection \<open>Reading\<close>

text \<open>
  C7. With the read cursor inside the elements, \<open>read()\<close> returns the element at the cursor
  and advances the read cursor by exactly 1, changing nothing else. With the read cursor
  at or beyond the end, in particular on an empty buffer, it fails with BufferUnderflow
  and the buffer is as before.
\<close>

theorem read_cases:
  "(rd_idx self < length (buf self) \<longrightarrow>
      read self = (Inr (buf self ! rd_idx self), self\<lparr>rd_idx := rd_idx self + 1\<rparr>))
   \<and> (rd_idx self \<ge> length (buf self) \<longrightarrow> read self = (Inl BufferUnderflow, self))
   \<and> (buf self = [] \<longrightarrow> read self = (Inl BufferUnderflow, self))"
  by (simp add: read_def)

theorem read_cases_witness:
  "read \<lparr>width = 16, buf = [7, 8, 9], wr_idx = 3, rd_idx = 1\<rparr>
     = (Inr 8, \<lparr>width = 16, buf = [7, 8, 9], wr_idx = 3, rd_idx = 2\<rparr>)
   \<and> read \<lparr>width = 16, buf = [7, 8, 9], wr_idx = 3, rd_idx = 3\<rparr>
     = (Inl BufferUnderflow, \<lparr>width = 16, buf = [7, 8, 9], wr_idx = 3, rd_idx = 3\<rparr>)
   \<and> read (data_buffer_init 8 None) = (Inl BufferUnderflow, data_buffer_init 8 None)"
  using read_cases [of "\<lparr>width = 16, buf = [7, 8, 9], wr_idx = 3, rd_idx = 1\<rparr>"]
    read_cases [of "\<lparr>width = 16, buf = [7, 8, 9], wr_idx = 3, rd_idx = 3\<rparr>"]
    read_cases [of "data_buffer_init 8 None"]
  by (simp add: data_buffer_init_def truthy_def)

subsection \<open>Endianness inversion\<close>

text \<open>
  C8. On a buffer of width 8, 16 or 32 whose elements are in the range of the width,
  \<open>endian_swap()\<close> applied twice succeeds both times and leaves the buffer exactly as it
  was, so every element has its original value. On a buffer of width 8 a single
  \<open>endian_swap()\<close> is a no-op. On every buffer, \<open>endian_swap()\<close> changes neither the number
  of elements nor the width.
\<close>

theorem endian_swap_twice:
  "(width self \<in> {8, 16, 32} \<and> elements_in_range self \<longrightarrow>
      fst (endian_swap self) = Inr ()
      \<and> fst (endian_swap (snd (endian_swap self))) = Inr ()
      \<and> snd (endian_swap (snd (endian_swap self))) = self)
   \<and> (width self = 8 \<longrightarrow> endian_swap self = (Inr (), self))
   \<and> length (buf (snd (endian_swap self))) = length (buf self)
   \<and> width (snd (endian_swap self)) = width self"
  by (auto simp: endian_swap_def elements_in_range_def swap16_twice_comp swap32_twice_comp)

theorem endian_swap_twice_witness:
  "snd (endian_swap (snd (endian_swap
       \<lparr>width = 16, buf = [0x1234, 0x00ff], wr_idx = 2, rd_idx = 1\<rparr>)))
     = \<lparr>width = 16, buf = [0x1234, 0x00ff], wr_idx = 2, rd_idx = 1\<rparr>
   \<and> snd (endian_swap (snd (endian_swap
       \<lparr>width = 32, buf = [0x12345678], wr_idx = 1, rd_idx = 0\<rparr>)))
     = \<lparr>width = 32, buf = [0x12345678], wr_idx = 1, rd_idx = 0\<rparr>
   \<and> endian_swap \<lparr>width = 8, buf = [0x12, 0x34], wr_idx = 2, rd_idx = 0\<rparr>
     = (Inr (), \<lparr>width = 8, buf = [0x12, 0x34], wr_idx = 2, rd_idx = 0\<rparr>)"
  using endian_swap_twice [of "\<lparr>width = 16, buf = [0x1234, 0x00ff], wr_idx = 2, rd_idx = 1\<rparr>"]
    endian_swap_twice [of "\<lparr>width = 32, buf = [0x12345678], wr_idx = 1, rd_idx = 0\<rparr>"]
    endian_swap_twice [of "\<lparr>width = 8, buf = [0x12, 0x34], wr_idx = 2, rd_idx = 0\<rparr>"]
  by (simp add: elements_in_range_def)

subsection \<open>Hashing\<close>

text \<open>
  C9. Let \<open>self\<close> refer to a buffer on the heap. After \<open>md5(mode)\<close>, whether it returned or
  raised, the object \<open>self\<close> refers to is as before: width, elements, read cursor and write
  cursor. The outcome is the same for any two buffers with equal width and elements,
  whatever their cursors. For a buffer of width 8, 16 or 32 the call returns the digest
  of the bytes of the 8-bit conversion of the copy.
\<close>

theorem md5_frame:
  "self < length h \<Longrightarrow>
     snd (md5 hexdigest h self mode) ! self = h ! self
     \<and> (self' < length h' \<and> width (h' ! self') = width (h ! self)
          \<and> buf (h' ! self') = buf (h ! self) \<longrightarrow>
            fst (md5 hexdigest h' self' mode) = fst (md5 hexdigest h self mode))
     \<and> (width (h ! self) \<in> {8, 16, 32} \<longrightarrow>
            fst (md5 hexdigest h self mode)
              = Inr (hexdigest (map char_of (buf (snd (convert8 (copy (h ! self)) mode))))))"
proof (intro conjI impI)
  assume "self < length h"
  then show "snd (md5 hexdigest h self mode) ! self = h ! self"
    by (simp add: md5_heap nth_append)
next
  assume "self' < length h' \<and> width (h' ! self') = width (h ! self)
    \<and> buf (h' ! self') = buf (h ! self)"
  then have "copy (h' ! self') = copy (h ! self)"
    by (intro copy_cursors_irrelevant) simp_all
  then show "fst (md5 hexdigest h' self' mode) = fst (md5 hexdigest h self mode)"
    by (simp only: md5_fst)
next
  assume "width (h ! self) \<in> {8, 16, 32}"
  then show "fst (md5 hexdigest h self mode)
      = Inr (hexdigest (map char_of (buf (snd (convert8 (copy (h ! self)) mode)))))"
    by (rule md5_digest)
qed

theorem md5_frame_witness:
  "snd (md5 (\<lambda>s. s) [\<lparr>width = 16, buf = [0x4142, 0x4344], wr_idx = 2, rd_idx = 0\<rparr>] 0 ''be'') ! 0
     = \<lparr>width = 16, buf = [0x4142, 0x4344], wr_idx = 2, rd_idx = 0\<rparr>
   \<and> fst (md5 (\<lambda>s. s) [\<lparr>width = 16, buf = [0x4142, 0x4344], wr_idx = 1, rd_idx = 2\<rparr>] 0 ''be'')
     = fst (md5 (\<lambda>s. s) [\<lparr>width = 16, buf = [0x4142, 0x4344], wr_idx = 2, rd_idx = 0\<rparr>] 0 ''be'')
   \<and> fst (md5 (\<lambda>s. s) [\<lparr>width = 16, buf = [0x4142, 0x4344], wr_idx = 2, rd_idx = 0\<rparr>] 0 ''be'')
     = Inr (map char_of [0x41, 0x42, 0x43, 0x44 :: int])"
  using md5_frame
      [of 0 "[\<lparr>width = 16, buf = [0x4142, 0x4344], wr_idx = 2, rd_idx = 0\<rparr>]"
          "\<lambda>s. s" "''be''"
          0 "[\<lparr>width = 16, buf = [0x4142, 0x4344], wr_idx = 1, rd_idx = 2\<rparr>]"]
  by (simp add: copy_def data_buffer_init_def truthy_def util_mask_def convert8_def
      converted_def)

subsection \<open>Endianness inversion and the cursors\<close>

text \<open>
  C10. On a buffer of width 8, 16 or 32, \<open>endian_swap()\<close> returns normally and leaves the
  read cursor and the write cursor exactly as they were: it resets neither.
\<close>

theorem endian_swap_keeps_cursors:
  "width self \<in> {8, 16, 32} \<Longrightarrow>
     fst (endian_swap self) = Inr ()
     \<and> rd_idx (snd (endian_swap self)) = rd_idx self
     \<and> wr_idx (snd (endian_swap self)) = wr_idx self"
  by (auto simp: endian_swap_def)

theorem endian_swap_keeps_cursors_witness:
  "fst (endian_swap \<lparr>width = 16, buf = [0x1234, 0xff00], wr_idx = 2, rd_idx = 1\<rparr>) = Inr ()
   \<and> rd_idx (snd (endian_swap \<lparr>width = 16, buf = [0x1234, 0xff00], wr_idx = 2, rd_idx = 1\<rparr>)) = 1
   \<and> wr_idx (snd (endian_swap \<lparr>width = 16, buf = [0x1234, 0xff00], wr_idx = 2, rd_idx = 1\<rparr>)) = 2"
  using endian_swap_keeps_cursors
      [of "\<lparr>width = 16, buf = [0x1234, 0xff00], wr_idx = 2, rd_idx = 1\<rparr>"]
  by simp

end
